theory Spec2Isabelle
  imports Complex_Main "HOL-Library.Word" "HOL-Library.Log_Nat"
begin

section \<open>JavaScript values used by the components\<close>

text \<open>
  A JavaScript string is a sequence of UTF-16 code units. \<open>js\<close> writes an ASCII
  literal as such a sequence.
\<close>

type_synonym js_string = "16 word list"

definition js :: "string \<Rightarrow> js_string" where
  "js s = map of_char s"

text \<open>
  \<open>String.prototype.trim\<close> removes leading and trailing code units that are WhiteSpace
  or LineTerminator in ECMAScript: TAB, LF, VT, FF, CR, SP, NBSP, U+1680, U+2000..U+200A,
  U+2028, U+2029, U+202F, U+205F, U+3000 and U+FEFF.
\<close>

definition isWhiteSpace :: "16 word \<Rightarrow> bool" where
  "isWhiteSpace c =
     (c \<in> set [0x9, 0xA, 0xB, 0xC, 0xD, 0x20, 0xA0, 0x1680,
                0x2028, 0x2029, 0x202F, 0x205F, 0x3000, 0xFEFF]
      \<or> (0x2000 \<le> c \<and> c \<le> 0x200A))"

definition trim :: "js_string \<Rightarrow> js_string" where
  "trim s = rev (dropWhile isWhiteSpace (rev (dropWhile isWhiteSpace s)))"

text \<open>
  A value that reaches a \<open>catch\<close> clause. \<open>IsError m\<close> is a value for which
  \<open>error instanceof Error\<close> holds, with \<open>error.message = m\<close>; \<open>NotError\<close> is any other
  thrown value (a plain object, a string, ...).
\<close>

datatype thrown = IsError (message: js_string) | NotError

text \<open>
  How an awaited backend call settles: the promise is fulfilled with a response object
  \<open>{ data, error }\<close> (each slot possibly \<open>null\<close>), or it is rejected with a thrown value.
\<close>

datatype 'a settled = Fulfilled "'a option" "thrown option" | Rejected thrown

text \<open>
  \<open>const { data, error } = await ...; if (error) throw error;\<close> inside a \<open>try\<close> block:
  \<open>Inl x\<close> when control passes to the \<open>catch\<close> clause with \<open>x\<close>, \<open>Inr data\<close> when the
  statements after the check run.
\<close>

definition awaited :: "'a settled \<Rightarrow> thrown + 'a option" where
  "awaited r =
     (case r of
        Rejected x \<Rightarrow> Inl x
      | Fulfilled d e \<Rightarrow> (case e of Some x \<Rightarrow> Inl x | None \<Rightarrow> Inr d))"


section \<open>JavaScript numbers\<close>

text \<open>
  A JavaScript number is an IEEE 754 binary64 value, and \<open>/\<close> and \<open>*\<close> return the exact
  result rounded to the nearest such value, ties to the even significand. The finite
  values are modelled as the rationals they denote. \<open>ilog2 x\<close> is the exponent of a
  positive \<open>x\<close> (\<open>2 powi ilog2 x \<le> x < 2 powi (ilog2 x + 1)\<close>); \<open>binary64 x\<close> rounds
  \<open>x\<close> to 53 significant bits, with the fixed spacing \<open>2 powi (- 1074)\<close> below the
  normal range. Overflow to \<open>Infinity\<close>, \<open>NaN\<close> and the sign of zero are not modelled:
  the only division in the components is guarded by \<open>totalCount > 0\<close>, and its operands
  are array lengths.
\<close>

definition round_half_even :: "rat \<Rightarrow> int" where
  "round_half_even y =
     (let f = \<lfloor>y\<rfloor>; r = y - of_int f in
      if r < 1 / 2 then f else if 1 / 2 < r then f + 1 else if even f then f else f + 1)"

definition ilog2 :: "rat \<Rightarrow> int" where
  "ilog2 x = (if 1 \<le> x then bitlen \<lfloor>x\<rfloor> - 1 else - bitlen (\<lceil>1 / x\<rceil> - 1))"

definition binary64 :: "rat \<Rightarrow> rat" where
  "binary64 x =
     (if x = 0 then 0
      else let e = max (ilog2 \<bar>x\<bar>) (- 1022); q = 2 powi (e - 52)
           in sgn x * of_int (round_half_even (\<bar>x\<bar> / q)) * q)"

definition js_div :: "rat \<Rightarrow> rat \<Rightarrow> rat" where
  "js_div a b = binary64 (a / b)"

definition js_mul :: "rat \<Rightarrow> rat \<Rightarrow> rat" where
  "js_mul a b = binary64 (a * b)"


section \<open>TodoApp: the task list synchronizer\<close>

text \<open>
  Modelled from the spec: the row type of the \<open>todos\<close> table (the generated
  \<open>database.types\<close> is not among the sources). The fields are those of the spec's Task,
  under the names the code uses: \<open>task.id\<close> (a number, here \<open>todo_id\<close>), \<open>user_id\<close>,
  \<open>task\<close>, \<open>completed\<close> and \<open>created_at\<close>. Of the session the component receives as a
  prop, the code reads \<open>session.user.id\<close> only.
\<close>

record todo =
  todo_id :: int
  user_id :: js_string
  task :: js_string
  completed :: bool
  created_at :: js_string

datatype session = Session (session_user_id: js_string)

text \<open>The four \<open>useState\<close> cells of the component.\<close>

record todo_app =
  tasks :: "todo list"
  newTask :: js_string
  loading :: bool
  error :: js_string

definition initial_todo_app :: todo_app where
  "initial_todo_app = \<lparr>tasks = [], newTask = [], loading = True, error = []\<rparr>"

text \<open>
  The requests the component sends: the filtered, ordered select; the insert of
  \<open>{ task, user_id, completed }\<close> (the client sends no id); the update of \<open>completed\<close>
  by id; the delete by id.
\<close>

datatype request =
    SelectTodos js_string
  | InsertTodo js_string js_string bool
  | UpdateCompleted int bool
  | DeleteTodo int

text \<open>The body shared by the four \<open>catch\<close> clauses:
  \<open>if (error instanceof Error) { setError(error.message); }\<close>.\<close>

definition catch_setError :: "thrown \<Rightarrow> todo_app \<Rightarrow> todo_app" where
  "catch_setError x s = (case x of IsError m \<Rightarrow> s\<lparr>error := m\<rparr> | NotError \<Rightarrow> s)"

text \<open>
  What that clause leaves in the error cell when the cell was empty before: the message of
  an \<open>Error\<close> thrown in the \<open>try\<close> block, and nothing otherwise.
\<close>

definition surfaced :: "'a settled \<Rightarrow> js_string" where
  "surfaced r = (case awaited r of Inl (IsError m) \<Rightarrow> m | _ \<Rightarrow> [])"

text \<open>
  An async handler runs in two parts: the statements up to the \<open>await\<close> (the state they
  leave and the request they send), and the continuation that runs when the request has
  settled. The continuation reads \<open>tasks\<close> from the closure of the render in which the
  handler was created, so that value is an argument of its own. The handler as a whole,
  with nothing interleaved, is the second part run on the state the first part left.
\<close>

subsection \<open>loadTasks\<close>

definition loadTasks_begin :: "session \<Rightarrow> todo_app \<Rightarrow> todo_app \<times> request" where
  "loadTasks_begin sess s = (s\<lparr>error := []\<rparr>, SelectTodos (session_user_id sess))"

definition loadTasks_settle :: "todo list settled \<Rightarrow> todo_app \<Rightarrow> todo_app" where
  "loadTasks_settle r s =
     (let s' = (case awaited r of
                  Inl x \<Rightarrow> catch_setError x s
                | Inr d \<Rightarrow> s\<lparr>tasks := (case d of Some rows \<Rightarrow> rows | None \<Rightarrow> [])\<rparr>)
      in s'\<lparr>loading := False\<rparr>)"

definition loadTasks :: "session \<Rightarrow> todo list settled \<Rightarrow> todo_app \<Rightarrow> todo_app \<times> request list" where
  "loadTasks sess r s =
     (case loadTasks_begin sess s of (s1, q) \<Rightarrow> (loadTasks_settle r s1, [q]))"

subsection \<open>addTask\<close>

text \<open>\<open>None\<close>: the handler returned at \<open>if (!trimmedTask) return;\<close>, before any request.\<close>

definition addTask_begin :: "session \<Rightarrow> todo_app \<Rightarrow> (todo_app \<times> request) option" where
  "addTask_begin sess s =
     (let trimmedTask = trim (newTask s) in
      if trimmedTask = [] then None
      else Some (s\<lparr>error := []\<rparr>, InsertTodo trimmedTask (session_user_id sess) False))"

definition addTask_settle :: "todo list \<Rightarrow> todo settled \<Rightarrow> todo_app \<Rightarrow> todo_app" where
  "addTask_settle tasks0 r s =
     (case awaited r of
        Inl x \<Rightarrow> catch_setError x s
      | Inr d \<Rightarrow> (case d of
                    Some row \<Rightarrow> s\<lparr>tasks := row # tasks0, newTask := []\<rparr>
                  | None \<Rightarrow> s))"

definition addTask :: "session \<Rightarrow> todo settled \<Rightarrow> todo_app \<Rightarrow> todo_app \<times> request list" where
  "addTask sess r s =
     (case addTask_begin sess s of
        None \<Rightarrow> (s, [])
      | Some (s1, q) \<Rightarrow> (addTask_settle (tasks s) r s1, [q]))"

subsection \<open>toggleTask\<close>

definition toggleTask_begin :: "int \<Rightarrow> bool \<Rightarrow> todo_app \<Rightarrow> todo_app \<times> request" where
  "toggleTask_begin i currentCompleted s =
     (s\<lparr>error := []\<rparr>, UpdateCompleted i (\<not> currentCompleted))"

definition toggleTask_settle ::
  "todo list \<Rightarrow> int \<Rightarrow> bool \<Rightarrow> 'a settled \<Rightarrow> todo_app \<Rightarrow> todo_app" where
  "toggleTask_settle tasks0 i currentCompleted r s =
     (case awaited r of
        Inl x \<Rightarrow> catch_setError x s
      | Inr _ \<Rightarrow>
          s\<lparr>tasks := map (\<lambda>t. if todo_id t = i then t\<lparr>completed := \<not> currentCompleted\<rparr> else t)
                        tasks0\<rparr>)"

definition toggleTask ::
  "int \<Rightarrow> bool \<Rightarrow> 'a settled \<Rightarrow> todo_app \<Rightarrow> todo_app \<times> request list" where
  "toggleTask i currentCompleted r s =
     (case toggleTask_begin i currentCompleted s of
        (s1, q) \<Rightarrow> (toggleTask_settle (tasks s) i currentCompleted r s1, [q]))"

subsection \<open>deleteTask\<close>

definition deleteTask_begin :: "int \<Rightarrow> todo_app \<Rightarrow> todo_app \<times> request" where
  "deleteTask_begin i s =
     (let s1 = s\<lparr>tasks := filter (\<lambda>t. todo_id t \<noteq> i) (tasks s)\<rparr>
      in (s1\<lparr>error := []\<rparr>, DeleteTodo i))"

definition deleteTask_settle :: "todo list \<Rightarrow> 'a settled \<Rightarrow> todo_app \<Rightarrow> todo_app" where
  "deleteTask_settle originalTasks r s =
     (case awaited r of
        Inl x \<Rightarrow> catch_setError x (s\<lparr>tasks := originalTasks\<rparr>)
      | Inr _ \<Rightarrow> s)"

definition deleteTask :: "int \<Rightarrow> 'a settled \<Rightarrow> todo_app \<Rightarrow> todo_app \<times> request list" where
  "deleteTask i r s =
     (case deleteTask_begin i s of
        (s1, q) \<Rightarrow> (deleteTask_settle (tasks s) r s1, [q]))"

subsection \<open>Other handlers and derived values\<close>

definition handleInputChange :: "js_string \<Rightarrow> todo_app \<Rightarrow> todo_app" where
  "handleInputChange v s = s\<lparr>newTask := v\<rparr>"

definition completedCount :: "todo list \<Rightarrow> nat" where
  "completedCount ts = length (filter completed ts)"

definition totalCount :: "todo list \<Rightarrow> nat" where
  "totalCount ts = length ts"

text \<open>\<open>totalCount > 0 ? (completedCount / totalCount) * 100 : 0\<close>, on numbers.\<close>

definition completionPercentage :: "todo list \<Rightarrow> rat" where
  "completionPercentage ts =
     (if totalCount ts > 0
      then js_mul (js_div (of_nat (completedCount ts)) (of_nat (totalCount ts))) 100
      else 0)"

text \<open>
  The data model's invariant on the local collection: the store assigns the ids, and no
  two tasks share one.
\<close>

definition unique_ids :: "todo list \<Rightarrow> bool" where
  "unique_ids ts = distinct (map todo_id ts)"

text \<open>
  Modelled from the spec: the store's contract for an insert, "an insert returning the
  created row" (the store is a hosted service, not code of the components). The row it
  returns carries the submitted \<open>task\<close>, \<open>user_id\<close> and \<open>completed\<close>.
\<close>

definition created_row :: "request \<Rightarrow> todo \<Rightarrow> bool" where
  "created_row q row =
     (case q of
        InsertTodo t u c \<Rightarrow> task row = t \<and> user_id row = u \<and> completed row = c
      | _ \<Rightarrow> False)"


section \<open>App: the session gate\<close>

text \<open>
  The two \<open>useState\<close> cells of \<open>App\<close>. The effect run on mount calls \<open>getSession\<close> once
  and registers the \<open>onAuthStateChange\<close> listener; these are the only two places that
  call \<open>setSession\<close>.
\<close>

record app =
  session :: "session option"
  app_loading :: bool

definition initial_app :: app where
  "initial_app = \<lparr>session = None, app_loading = True\<rparr>"

definition getSession_then :: "session option \<Rightarrow> app \<Rightarrow> app" where
  "getSession_then so a = a\<lparr>session := so, app_loading := False\<rparr>"

definition onAuthStateChange_callback :: "js_string \<Rightarrow> session option \<Rightarrow> app \<Rightarrow> app" where
  "onAuthStateChange_callback event so a = a\<lparr>session := so\<rparr>"

datatype view = LoadingView | AuthView | TodoAppView session

definition render_App :: "app \<Rightarrow> view" where
  "render_App a =
     (if app_loading a then LoadingView
      else case session a of None \<Rightarrow> AuthView | Some sess \<Rightarrow> TodoAppView sess)"

section \<open>Auth: the credential form\<close>

text \<open>
  The five \<open>useState\<close> cells of \<open>Auth\<close>. The component takes no props, so its handlers
  can write these cells only. \<open>handleAuth\<close> is split at its \<open>await\<close> like the handlers
  of \<open>TodoApp\<close>; its third result is the list of \<open>alert\<close> messages shown.
\<close>

record auth =
  auth_loading :: bool
  email :: js_string
  password :: js_string
  isSignUp :: bool
  auth_error :: js_string

definition initial_auth :: auth where
  "initial_auth = \<lparr>auth_loading = False, email = [], password = [], isSignUp = False,
                    auth_error = []\<rparr>"

datatype auth_request = SignUp js_string js_string | SignInWithPassword js_string js_string

definition handleAuth_begin :: "auth \<Rightarrow> auth \<times> auth_request" where
  "handleAuth_begin a =
     (a\<lparr>auth_error := [], auth_loading := True\<rparr>,
      if isSignUp a then SignUp (email a) (password a)
      else SignInWithPassword (email a) (password a))"

definition handleAuth_settle :: "bool \<Rightarrow> 'a settled \<Rightarrow> auth \<Rightarrow> auth \<times> js_string list" where
  "handleAuth_settle isSignUp0 r a =
     (case awaited r of
        Inl x \<Rightarrow>
          ((case x of
              IsError m \<Rightarrow> a\<lparr>auth_error := m\<rparr>
            | NotError \<Rightarrow> a\<lparr>auth_error := js ''An unexpected error occurred''\<rparr>)
             \<lparr>auth_loading := False\<rparr>, [])
      | Inr _ \<Rightarrow>
          (a\<lparr>auth_loading := False\<rparr>,
           if isSignUp0 then [js ''Success! Check your email to confirm your account.''] else []))"

definition handleAuth :: "'a settled \<Rightarrow> auth \<Rightarrow> auth \<times> auth_request list \<times> js_string list" where
  "handleAuth r a =
     (case handleAuth_begin a of
        (a1, q) \<Rightarrow> (case handleAuth_settle (isSignUp a) r a1 of
                      (a2, alerts) \<Rightarrow> (a2, [q], alerts)))"

definition handleEmailChange :: "js_string \<Rightarrow> auth \<Rightarrow> auth" where
  "handleEmailChange v a = a\<lparr>email := v\<rparr>"

definition handlePasswordChange :: "js_string \<Rightarrow> auth \<Rightarrow> auth" where
  "handlePasswordChange v a = a\<lparr>password := v\<rparr>"

definition toggleMode :: "auth \<Rightarrow> auth" where
  "toggleMode a = a\<lparr>isSignUp := \<not> isSignUp a, auth_error := []\<rparr>"

section \<open>The components together\<close>

text \<open>
  The cells of \<open>App\<close> and of the \<open>Auth\<close> form, and the events that run their code: the
  initial \<open>getSession\<close> promise resolving, a notification of the auth listener, the form
  being submitted (with the way the sign-in or sign-up call settles), input in the two
  fields, the mode link, and the sign-out button of \<open>TodoApp\<close> (whose handler awaits
  \<open>supabase.auth.signOut()\<close> and writes no cell).
\<close>

record ui =
  gate :: app
  form :: auth

datatype event =
    SessionResolved "session option"
  | AuthStateChange js_string "session option"
  | SubmitCredentials "unit settled"
  | EmailInput js_string
  | PasswordInput js_string
  | ModeToggled
  | SignOutClicked

fun dispatch :: "event \<Rightarrow> ui \<Rightarrow> ui" where
  "dispatch (SessionResolved so) u = u\<lparr>gate := getSession_then so (gate u)\<rparr>"
| "dispatch (AuthStateChange e so) u = u\<lparr>gate := onAuthStateChange_callback e so (gate u)\<rparr>"
| "dispatch (SubmitCredentials r) u = u\<lparr>form := fst (handleAuth r (form u))\<rparr>"
| "dispatch (EmailInput v) u = u\<lparr>form := handleEmailChange v (form u)\<rparr>"
| "dispatch (PasswordInput v) u = u\<lparr>form := handlePasswordChange v (form u)\<rparr>"
| "dispatch ModeToggled u = u\<lparr>form := toggleMode (form u)\<rparr>"
| "dispatch SignOutClicked u = u"


section \<open>Example data\<close>

text \<open>
  Rows, states and collections the properties below are evaluated on: the two-task
  collection of the spec's scenarios, with text in the input field and an error notice
  left by an earlier operation; a collection of twenty tasks, eleven of them completed;
  and the application with no session, showing the credential form.
\<close>

definition row :: "int \<Rightarrow> string \<Rightarrow> bool \<Rightarrow> todo" where
  "row i txt c = \<lparr>todo_id = i, user_id = js ''u1'', task = js txt, completed = c,
                  created_at = js ''2024-01-01''\<rparr>"

definition two_tasks :: todo_app where
  "two_tasks = \<lparr>tasks = [row 1 ''Buy milk'' False, row 2 ''Walk dog'' False],
               newTask = js '' Call mum '', loading = False, error = js ''stale''\<rparr>"

definition twenty_tasks :: "todo list" where
  "twenty_tasks = map (\<lambda>i. row (int i) ''task'' (i < 11)) [0..<20]"

definition signed_out_ui :: ui where
  "signed_out_ui =
     \<lparr>gate = \<lparr>session = None, app_loading = False\<rparr>,
      form = \<lparr>auth_loading = False, email = js ''a@b.c'', password = js ''pw'', isSignUp = False,
              auth_error = []\<rparr>\<rparr>"


section \<open>Properties of the task list synchronizer\<close>

lemma trim_empty_iff: "trim s = [] \<longleftrightarrow> (\<forall>c\<in>set s. isWhiteSpace c)"
proof -
  have "(\<forall>c\<in>set (dropWhile isWhiteSpace s). isWhiteSpace c) \<longleftrightarrow> (\<forall>c\<in>set s. isWhiteSpace c)"
    by (induction s) auto
  then show ?thesis
    by (simp add: trim_def)
qed

lemma tasks_catch_setError [simp]: "tasks (catch_setError x s) = tasks s"
  by (simp add: catch_setError_def split: thrown.splits)

lemma newTask_catch_setError [simp]: "newTask (catch_setError x s) = newTask s"
  by (simp add: catch_setError_def split: thrown.splits)

lemma filter_other_ids:
  "distinct (map todo_id ts) \<Longrightarrow> t \<in> set ts \<Longrightarrow>
     filter (\<lambda>u. todo_id u \<noteq> todo_id t) ts = remove1 t ts"
proof (induction ts)
  case Nil then show ?case by simp
next
  case (Cons a ts)
  show ?case
  proof (cases "a = t")
    case True
    with Cons.prems have "todo_id t \<notin> todo_id ` set ts" by simp
    then have "\<forall>u\<in>set ts. todo_id u \<noteq> todo_id t"
      by (metis imageI)
    then have "filter (\<lambda>u. todo_id u \<noteq> todo_id t) ts = ts"
      by (simp add: filter_id_conv)
    with True show ?thesis by simp
  next
    case False
    with Cons.prems have "t \<in> set ts" "todo_id a \<noteq> todo_id t" by auto
    with Cons show ?thesis using False by simp
  qed
qed

subsection \<open>The ids of the collection stay unique\<close>

text \<open>
  The collection starts empty, and the operations keep its ids unique as long as the store
  does its part: a select returns rows with distinct ids, and an insert returns a row whose
  id no task of the collection has.
\<close>

lemma unique_ids_initial: "unique_ids (tasks initial_todo_app)"
  by (simp add: unique_ids_def initial_todo_app_def)

lemma unique_ids_loadTasks:
  assumes "unique_ids (tasks s)"
    and "\<And>rows. r = Fulfilled (Some rows) None \<Longrightarrow> unique_ids rows"
  shows "unique_ids (tasks (fst (loadTasks sess r s)))"
  using assms
  by (cases r)
     (auto simp: loadTasks_def loadTasks_begin_def loadTasks_settle_def awaited_def
         unique_ids_def split: option.splits)

lemma unique_ids_addTask:
  assumes "unique_ids (tasks s)"
    and "\<And>new. r = Fulfilled (Some new) None \<Longrightarrow> todo_id new \<notin> todo_id ` set (tasks s)"
  shows "unique_ids (tasks (fst (addTask sess r s)))"
  using assms
  by (cases r)
     (auto simp: addTask_def addTask_begin_def addTask_settle_def awaited_def Let_def
         unique_ids_def split: option.splits)

lemma map_todo_id_toggle:
  "map (todo_id \<circ> (\<lambda>t. if todo_id t = i then t\<lparr>completed := b\<rparr> else t)) ts = map todo_id ts"
  by (induction ts) auto

lemma unique_ids_toggleTask:
  assumes "unique_ids (tasks s)"
  shows "unique_ids (tasks (fst (toggleTask i c r s)))"
  using assms
  by (cases "awaited r")
     (simp_all add: toggleTask_def toggleTask_begin_def toggleTask_settle_def unique_ids_def
         map_todo_id_toggle)

lemma unique_ids_deleteTask:
  assumes "unique_ids (tasks s)"
  shows "unique_ids (tasks (fst (deleteTask_begin i s)))"
    and "unique_ids (tasks (fst (deleteTask i r s)))"
  using assms
  by (cases "awaited r";
      simp add: deleteTask_def deleteTask_begin_def deleteTask_settle_def Let_def unique_ids_def
        distinct_map_filter)+

subsection \<open>The four operations\<close>

text \<open>
  Claim C1. For a task \<open>t\<close> of the local collection, \<open>deleteTask (todo_id t)\<close> has
  removed \<open>t\<close> by the time the request is sent; with the ids of the collection unique,
  the collection then is the old one without \<open>t\<close>, exactly one element shorter. If the
  request fails (an error in the response, or a rejection), the collection is again the
  list held before the handler ran, element for element and in the same order.
\<close>
theorem deleteTask_optimistic_rollback:
  assumes "t \<in> set (tasks s)"
  shows "t \<notin> set (tasks (fst (deleteTask_begin (todo_id t) s)))
       \<and> (unique_ids (tasks s) \<longrightarrow>
            tasks (fst (deleteTask_begin (todo_id t) s)) = remove1 t (tasks s)
          \<and> Suc (length (tasks (fst (deleteTask_begin (todo_id t) s)))) = length (tasks s))
       \<and> (awaited r = Inl x \<longrightarrow> tasks (fst (deleteTask (todo_id t) r s)) = tasks s)"
proof -
  have gone: "t \<notin> set (tasks (fst (deleteTask_begin (todo_id t) s)))"
    by (simp add: deleteTask_begin_def Let_def)
  have shorter: "unique_ids (tasks s) \<longrightarrow>
        tasks (fst (deleteTask_begin (todo_id t) s)) = remove1 t (tasks s)
      \<and> Suc (length (tasks (fst (deleteTask_begin (todo_id t) s)))) = length (tasks s)"
  proof
    assume u: "unique_ids (tasks s)"
    have f: "tasks (fst (deleteTask_begin (todo_id t) s)) = remove1 t (tasks s)"
      using assms u by (simp add: deleteTask_begin_def Let_def unique_ids_def filter_other_ids)
    have "Suc (length (remove1 t (tasks s))) = length (tasks s)"
      using assms by (simp add: length_remove1) (cases "tasks s"; simp)
    with f show "tasks (fst (deleteTask_begin (todo_id t) s)) = remove1 t (tasks s)
      \<and> Suc (length (tasks (fst (deleteTask_begin (todo_id t) s)))) = length (tasks s)"
      by simp
  qed
  have restored: "awaited r = Inl x \<longrightarrow> tasks (fst (deleteTask (todo_id t) r s)) = tasks s"
    by (simp add: deleteTask_def deleteTask_begin_def deleteTask_settle_def Let_def)
  show ?thesis
    using gone shorter restored by blast
qed


lemmas example_defs = row_def two_tasks_def js_def unique_ids_def

lemma error_catch_setError: "error (catch_setError x s) = (case x of IsError m \<Rightarrow> m | NotError \<Rightarrow> error s)"
  by (simp add: catch_setError_def split: thrown.splits)

theorem deleteTask_optimistic_rollback_witness:
  "row 2 ''Walk dog'' False \<in> set (tasks two_tasks) \<and> unique_ids (tasks two_tasks)
   \<and> awaited (Fulfilled (None :: unit option) (Some (IsError (js ''network down'')))) = Inl (IsError (js ''network down''))
   \<and> tasks (fst (deleteTask_begin 2 two_tasks)) = [row 1 ''Buy milk'' False]
   \<and> tasks (fst (deleteTask 2 (Fulfilled (None :: unit option) (Some (IsError (js ''network down'')))) two_tasks))
       = [row 1 ''Buy milk'' False, row 2 ''Walk dog'' False]"
  using deleteTask_optimistic_rollback [of "row 2 ''Walk dog'' False" two_tasks
      "Fulfilled (None :: unit option) (Some (IsError (js ''network down'')))" "IsError (js ''network down'')"]
  by (simp add: example_defs awaited_def)

text \<open>
  Claim C2. When the input is non-empty after trimming and the insert succeeds with a
  row, \<open>addTask\<close> sends one insert carrying the trimmed text and \<open>completed = false\<close>
  (and no id), and the collection becomes the returned row in front of the old collection.
  The first element carries the id the store assigned; when the returned row is the
  created row, its text is the trimmed input and it is not completed.
\<close>
theorem addTask_success_prepends:
  assumes "trim (newTask s) \<noteq> []"
  shows "snd (addTask sess (Fulfilled (Some r) None) s)
           = [InsertTodo (trim (newTask s)) (session_user_id sess) False]
       \<and> tasks (fst (addTask sess (Fulfilled (Some r) None) s)) = r # tasks s
       \<and> todo_id (hd (tasks (fst (addTask sess (Fulfilled (Some r) None) s)))) = todo_id r
       \<and> (created_row (InsertTodo (trim (newTask s)) (session_user_id sess) False) r \<longrightarrow>
            task (hd (tasks (fst (addTask sess (Fulfilled (Some r) None) s)))) = trim (newTask s)
          \<and> \<not> completed (hd (tasks (fst (addTask sess (Fulfilled (Some r) None) s)))))"
  using assms
  by (simp add: addTask_def addTask_begin_def addTask_settle_def awaited_def Let_def created_row_def)

theorem addTask_success_prepends_witness:
  "trim (newTask two_tasks) \<noteq> []
   \<and> created_row (InsertTodo (js ''Call mum'') (js ''u1'') False) (row 7 ''Call mum'' False)
   \<and> addTask (Session (js ''u1'')) (Fulfilled (Some (row 7 ''Call mum'' False)) None) two_tasks
      = (\<lparr>tasks = [row 7 ''Call mum'' False, row 1 ''Buy milk'' False, row 2 ''Walk dog'' False],
           newTask = [], loading = False, error = []\<rparr>,
         [InsertTodo (js ''Call mum'') (js ''u1'') False])"
  using addTask_success_prepends [of two_tasks "Session (js ''u1'')" "row 7 ''Call mum'' False"]
  by (simp add: example_defs addTask_def addTask_begin_def addTask_settle_def awaited_def
        created_row_def trim_def isWhiteSpace_def)

text \<open>
  Claim C3. When the input consists of white space only (or is empty), \<open>addTask\<close>
  changes no state cell (collection, input field, error notice) and sends no request,
  whatever the backend would have answered.
\<close>
theorem addTask_blank_noop:
  assumes "\<forall>c\<in>set (newTask s). isWhiteSpace c"
  shows "addTask sess r s = (s, [])"
  using assms by (simp add: addTask_def addTask_begin_def trim_empty_iff)

theorem addTask_blank_noop_witness:
  "list_all isWhiteSpace (js ''  '')
   \<and> addTask (Session (js ''u1'')) (Fulfilled None None) (two_tasks\<lparr>newTask := js ''  ''\<rparr>)
      = (two_tasks\<lparr>newTask := js ''  ''\<rparr>, [])"
  using addTask_blank_noop [of "two_tasks\<lparr>newTask := js ''  ''\<rparr>" "Session (js ''u1'')" "Fulfilled None None"]
  by (simp add: example_defs isWhiteSpace_def)

lemma map_toggle_other:
  "todo_id t \<notin> todo_id ` set xs \<Longrightarrow>
     map (\<lambda>u. if todo_id u = todo_id t then u\<lparr>completed := b\<rparr> else u) xs = xs"
  by (induction xs) auto

text \<open>
  Claim C4. For a task \<open>t\<close> of a collection with unique ids, \<open>toggleTask\<close> called
  with \<open>t\<close>'s id and current \<open>completed\<close> value, followed by a successful response,
  replaces \<open>t\<close> in place by \<open>t\<close> with \<open>completed\<close> negated and leaves every other
  element (and every other field of \<open>t\<close>) as it was; exactly one element has \<open>t\<close>'s id.
\<close>
theorem toggleTask_success_flips_one:
  assumes "t \<in> set (tasks s)" and "unique_ids (tasks s)" and "awaited r = Inr d"
  shows "(\<exists>pre post.
            tasks s = pre @ t # post
          \<and> tasks (fst (toggleTask (todo_id t) (completed t) r s))
              = pre @ t\<lparr>completed := \<not> completed t\<rparr> # post
          \<and> todo_id t \<notin> todo_id ` set (pre @ post))
       \<and> filter (\<lambda>u. todo_id u = todo_id t) (tasks (fst (toggleTask (todo_id t) (completed t) r s)))
           = [t\<lparr>completed := \<not> completed t\<rparr>]"
proof -
  let ?f = "\<lambda>u. if todo_id u = todo_id t then u\<lparr>completed := \<not> completed t\<rparr> else u"
  from assms(1) obtain pre post where sp: "tasks s = pre @ t # post"
    by (auto simp: in_set_conv_decomp)
  with assms(2) have fresh: "todo_id t \<notin> todo_id ` set pre" "todo_id t \<notin> todo_id ` set post"
    by (auto simp: unique_ids_def)
  have res: "tasks (fst (toggleTask (todo_id t) (completed t) r s)) = map ?f (tasks s)"
    using assms(3) by (simp add: toggleTask_def toggleTask_begin_def toggleTask_settle_def)
  have m: "map ?f (tasks s) = pre @ t\<lparr>completed := \<not> completed t\<rparr> # post"
    using fresh by (simp add: sp map_toggle_other)
  have "\<forall>u\<in>set pre. todo_id u \<noteq> todo_id t"
    using fresh(1) by (metis imageI)
  then have np: "filter (\<lambda>u. todo_id u = todo_id t) pre = []"
    by (simp add: filter_empty_conv)
  have "\<forall>u\<in>set post. todo_id u \<noteq> todo_id t"
    using fresh(2) by (metis imageI)
  then have nq: "filter (\<lambda>u. todo_id u = todo_id t) post = []"
    by (simp add: filter_empty_conv)
  have "filter (\<lambda>u. todo_id u = todo_id t) (pre @ t\<lparr>completed := \<not> completed t\<rparr> # post)
          = [t\<lparr>completed := \<not> completed t\<rparr>]"
    by (simp add: np nq)
  moreover have "todo_id t \<notin> todo_id ` set (pre @ post)"
    using fresh by auto
  ultimately show ?thesis
    unfolding res m using sp by blast
qed

theorem toggleTask_success_flips_one_witness:
  "row 1 ''Buy milk'' False \<in> set (tasks two_tasks) \<and> unique_ids (tasks two_tasks)
   \<and> awaited (Fulfilled (None :: unit option) None) = Inr None
   \<and> tasks (fst (toggleTask 1 False (Fulfilled (None :: unit option) None) two_tasks))
       = [row 1 ''Buy milk'' True, row 2 ''Walk dog'' False]
   \<and> filter (\<lambda>u. todo_id u = 1)
        (tasks (fst (toggleTask 1 False (Fulfilled (None :: unit option) None) two_tasks)))
       = [row 1 ''Buy milk'' True]"
proof -
  have h1: "row 1 ''Buy milk'' False \<in> set (tasks two_tasks)"
    by (simp add: example_defs)
  have h2: "unique_ids (tasks two_tasks)"
    by (simp add: example_defs)
  have h3: "awaited (Fulfilled (None :: unit option) None) = Inr None"
    by (simp add: awaited_def)
  have "filter (\<lambda>u. todo_id u = todo_id (row 1 ''Buy milk'' False))
          (tasks (fst (toggleTask (todo_id (row 1 ''Buy milk'' False))
             (completed (row 1 ''Buy milk'' False)) (Fulfilled (None :: unit option) None) two_tasks)))
        = [(row 1 ''Buy milk'' False)\<lparr>completed := \<not> completed (row 1 ''Buy milk'' False)\<rparr>]"
    using toggleTask_success_flips_one [OF h1 h2 h3] by (rule conjunct2)
  then have "filter (\<lambda>u. todo_id u = 1)
        (tasks (fst (toggleTask 1 False (Fulfilled (None :: unit option) None) two_tasks)))
       = [row 1 ''Buy milk'' True]"
    by (simp add: row_def)
  moreover have "tasks (fst (toggleTask 1 False (Fulfilled (None :: unit option) None) two_tasks))
       = [row 1 ''Buy milk'' True, row 2 ''Walk dog'' False]"
    by (simp add: example_defs awaited_def toggleTask_def toggleTask_begin_def toggleTask_settle_def)
  ultimately show ?thesis
    using h1 h2 h3 by simp
qed

lemma addTask_failure:
  assumes "awaited r = Inl x"
  shows "tasks (fst (addTask sess r s)) = tasks s \<and> newTask (fst (addTask sess r s)) = newTask s
       \<and> (addTask_begin sess s \<noteq> None \<longrightarrow>
            error (fst (addTask sess r s)) = (case x of IsError m \<Rightarrow> m | NotError \<Rightarrow> []))"
  using assms
  by (auto simp: addTask_def addTask_begin_def addTask_settle_def Let_def error_catch_setError
      split: thrown.splits)

text \<open>
  Claim C5. A failed insert leaves the input field and the collection as they were (lemma
  \<open>addTask_failure\<close>), and stores the message when the thrown value is an \<open>Error\<close>. When
  the error of the response is not an \<open>Error\<close> instance, the \<open>catch\<close> clause of
  \<open>addTask\<close> stores nothing, and the error cell stays empty: no message is surfaced.
\<close>
theorem addTask_failure_not_surfaced:
  "addTask (Session (js ''u1'')) (Fulfilled None (Some NotError)) two_tasks
     = (two_tasks\<lparr>error := []\<rparr>, [InsertTodo (js ''Call mum'') (js ''u1'') False])"
  by (simp add: example_defs addTask_def addTask_begin_def addTask_settle_def awaited_def
        catch_setError_def trim_def isWhiteSpace_def)

text \<open>
  Claim C6. \<open>loadTasks\<close> and \<open>toggleTask\<close> (and \<open>addTask\<close>) do not touch the collection
  before the request settles, and when it settles with an error the collection is the one
  from before the operation. \<open>deleteTask\<close> also ends with the old collection on failure,
  but it is the operation that has changed the collection before the request settled
  (whenever the id occurs in it).
\<close>
theorem failure_never_applied_except_delete:
  assumes "awaited rl = Inl xl" and "awaited rt = Inl xt"
    and "awaited ra = Inl xa" and "awaited rd = Inl xd"
  shows "tasks (fst (loadTasks_begin sess s)) = tasks s
       \<and> tasks (fst (loadTasks sess rl s)) = tasks s
       \<and> tasks (fst (toggleTask_begin i c s)) = tasks s
       \<and> tasks (fst (toggleTask i c rt s)) = tasks s
       \<and> (\<forall>s1 q. addTask_begin sess s = Some (s1, q) \<longrightarrow> tasks s1 = tasks s)
       \<and> tasks (fst (addTask sess ra s)) = tasks s
       \<and> tasks (fst (deleteTask i rd s)) = tasks s
       \<and> (i \<in> todo_id ` set (tasks s) \<longrightarrow> tasks (fst (deleteTask_begin i s)) \<noteq> tasks s)"
proof -
  have l: "tasks (fst (loadTasks sess rl s)) = tasks s"
    using assms(1) by (simp add: loadTasks_def loadTasks_begin_def loadTasks_settle_def)
  have t: "tasks (fst (toggleTask i c rt s)) = tasks s"
    using assms(2) by (simp add: toggleTask_def toggleTask_begin_def toggleTask_settle_def)
  have a: "tasks (fst (addTask sess ra s)) = tasks s"
    using assms(3) by (simp add: addTask_failure)
  have ab: "\<forall>s1 q. addTask_begin sess s = Some (s1, q) \<longrightarrow> tasks s1 = tasks s"
    by (auto simp: addTask_begin_def Let_def split: if_splits)
  have d: "tasks (fst (deleteTask i rd s)) = tasks s"
    using assms(4) by (simp add: deleteTask_def deleteTask_begin_def deleteTask_settle_def Let_def)
  have db: "i \<in> todo_id ` set (tasks s) \<longrightarrow> tasks (fst (deleteTask_begin i s)) \<noteq> tasks s"
  proof
    assume "i \<in> todo_id ` set (tasks s)"
    then obtain u where "u \<in> set (tasks s)" "todo_id u = i" by blast
    then have "\<not> (\<forall>t\<in>set (tasks s). todo_id t \<noteq> i)" by blast
    then have "filter (\<lambda>t. todo_id t \<noteq> i) (tasks s) \<noteq> tasks s"
      by (simp only: filter_id_conv not_False_eq_True)
    then show "tasks (fst (deleteTask_begin i s)) \<noteq> tasks s"
      by (simp add: deleteTask_begin_def Let_def)
  qed
  have lb: "tasks (fst (loadTasks_begin sess s)) = tasks s"
    by (simp add: loadTasks_begin_def)
  have tb: "tasks (fst (toggleTask_begin i c s)) = tasks s"
    by (simp add: toggleTask_begin_def)
  show ?thesis
    using lb l tb t ab a d db by (intro conjI)
qed

theorem failure_never_applied_except_delete_witness:
  "awaited (Rejected (IsError (js ''offline'')) :: todo list settled) = Inl (IsError (js ''offline''))
   \<and> awaited (Fulfilled (None :: unit option) (Some NotError)) = Inl NotError
   \<and> awaited (Fulfilled (None :: todo option) (Some (IsError (js ''denied'')))) = Inl (IsError (js ''denied''))
   \<and> tasks (fst (loadTasks (Session (js ''u1'')) (Rejected (IsError (js ''offline''))) two_tasks)) = tasks two_tasks
   \<and> tasks (fst (toggleTask 1 False (Fulfilled (None :: unit option) (Some NotError)) two_tasks)) = tasks two_tasks
   \<and> tasks (fst (addTask (Session (js ''u1'')) (Fulfilled None (Some (IsError (js ''denied'')))) two_tasks)) = tasks two_tasks
   \<and> tasks (fst (deleteTask 1 (Fulfilled (None :: unit option) (Some NotError)) two_tasks)) = tasks two_tasks
   \<and> 1 \<in> todo_id ` set (tasks two_tasks)
   \<and> tasks (fst (deleteTask_begin 1 two_tasks)) \<noteq> tasks two_tasks"
  using failure_never_applied_except_delete [of "Rejected (IsError (js ''offline''))" "IsError (js ''offline'')"
      "Fulfilled (None :: unit option) (Some NotError)" NotError
      "Fulfilled (None :: todo option) (Some (IsError (js ''denied'')))" "IsError (js ''denied'')"
      "Fulfilled (None :: unit option) (Some NotError)" NotError
      "Session (js ''u1'')" two_tasks 1 False]
  by (simp add: example_defs awaited_def)

text \<open>
  Claim C9. \<open>deleteTask\<close> with an id that no task of the collection has: the collection
  at the time the request is sent is unchanged, exactly one delete request for that id is
  sent, and the collection after the request has settled is unchanged, whatever the outcome.
\<close>
theorem deleteTask_absent_id_harmless:
  assumes "i \<notin> todo_id ` set (tasks s)"
  shows "tasks (fst (deleteTask_begin i s)) = tasks s
       \<and> snd (deleteTask_begin i s) = DeleteTodo i
       \<and> snd (deleteTask i r s) = [DeleteTodo i]
       \<and> tasks (fst (deleteTask i r s)) = tasks s"
proof -
  from assms have "\<forall>u\<in>set (tasks s). todo_id u \<noteq> i" by (metis imageI)
  then have f: "filter (\<lambda>t. todo_id t \<noteq> i) (tasks s) = tasks s"
    by (simp add: filter_id_conv)
  show ?thesis
    by (cases "awaited r")
       (simp_all add: deleteTask_def deleteTask_begin_def deleteTask_settle_def Let_def f)
qed

theorem deleteTask_absent_id_harmless_witness:
  "9 \<notin> todo_id ` set (tasks two_tasks)
   \<and> tasks (fst (deleteTask_begin 9 two_tasks)) = tasks two_tasks
   \<and> deleteTask 9 (Rejected NotError :: unit settled) two_tasks = (two_tasks\<lparr>error := []\<rparr>, [DeleteTodo 9])
   \<and> deleteTask 9 (Fulfilled (None :: unit option) None) two_tasks = (two_tasks\<lparr>error := []\<rparr>, [DeleteTodo 9])"
  using deleteTask_absent_id_harmless [of 9 two_tasks "Rejected NotError :: unit settled"]
  by (simp add: example_defs awaited_def deleteTask_def deleteTask_begin_def deleteTask_settle_def
        catch_setError_def)


section \<open>Error notice and session gate\<close>

text \<open>
  Claim C8. Submitting the credential form leaves the cells of \<open>App\<close> untouched, however
  the sign-in or sign-up call settles; an event that changes the session cell is the
  resolution of the initial \<open>getSession\<close> or a notification of the auth listener, and
  each of these two stores the session it delivers.
\<close>
theorem session_written_only_by_auth_notifications:
  "gate (dispatch (SubmitCredentials r) u) = gate u
   \<and> (session (gate (dispatch ev u)) \<noteq> session (gate u) \<longrightarrow>
        (\<exists>so. ev = SessionResolved so) \<or> (\<exists>e so. ev = AuthStateChange e so))
   \<and> session (gate (dispatch (AuthStateChange e so) u)) = so
   \<and> session (gate (dispatch (SessionResolved so) u)) = so"
  by (cases ev) (simp_all add: getSession_then_def onAuthStateChange_callback_def)

theorem session_written_only_by_auth_notifications_witness:
  "awaited (Fulfilled (Some ()) None) = Inr (Some ())
   \<and> render_App (gate (dispatch (SubmitCredentials (Fulfilled (Some ()) None)) signed_out_ui)) = AuthView
   \<and> session (gate (dispatch (AuthStateChange (js ''SIGNED_IN'') (Some (Session (js ''u1'')))) signed_out_ui))
        \<noteq> session (gate signed_out_ui)
   \<and> render_App (gate (dispatch (AuthStateChange (js ''SIGNED_IN'') (Some (Session (js ''u1'')))) signed_out_ui))
        = TodoAppView (Session (js ''u1''))"
  using session_written_only_by_auth_notifications [of "Fulfilled (Some ()) None" signed_out_ui
      "AuthStateChange (js ''SIGNED_IN'') (Some (Session (js ''u1'')))" "js ''SIGNED_IN''"
      "Some (Session (js ''u1''))"]
  by (simp add: signed_out_ui_def awaited_def render_App_def onAuthStateChange_callback_def)

text \<open>
  Claim C10, as stated, fails for an \<open>addTask\<close> with blank input: the handler returns
  before \<open>setError("")\<close>, and a notice surfaced earlier stays.
\<close>
theorem blank_add_keeps_error:
  "addTask_begin (Session (js ''u1'')) (two_tasks\<lparr>newTask := js ''  ''\<rparr>) = None
   \<and> error (fst (addTask (Session (js ''u1'')) (Fulfilled None None) (two_tasks\<lparr>newTask := js ''  ''\<rparr>)))
       = js ''stale''
   \<and> js ''stale'' \<noteq> []"
  by (simp add: example_defs addTask_def addTask_begin_def trim_def isWhiteSpace_def)

lemma error_settle_simps:
  "error (loadTasks_settle rl (s\<lparr>error := []\<rparr>)) = surfaced rl"
  "error (addTask_settle ts ra (s\<lparr>error := []\<rparr>)) = surfaced ra"
  "error (toggleTask_settle ts i c rt (s\<lparr>error := []\<rparr>)) = surfaced rt"
  "error (deleteTask_settle ts rd (s\<lparr>error := []\<rparr>)) = surfaced rd"
  by (auto simp: loadTasks_settle_def addTask_settle_def toggleTask_settle_def
      deleteTask_settle_def surfaced_def catch_setError_def Let_def
      split: sum.splits thrown.splits option.splits)

text \<open>
  Claim C10, amended. Every operation that sends a request (\<open>loadTasks\<close>, \<open>toggleTask\<close>,
  \<open>deleteTask\<close>, and \<open>addTask\<close> when it sends one) has reset the error cell to the empty
  string by the time the request is sent, and when the request has settled the cell holds
  the message of this operation's failure or is empty: what was surfaced before is gone.
  An \<open>addTask\<close> that sends no request leaves the cell as it was.
\<close>
theorem error_reset_when_request_sent:
  "error (fst (loadTasks_begin sess s)) = []
   \<and> (\<forall>s1 q. addTask_begin sess s = Some (s1, q) \<longrightarrow> error s1 = [])
   \<and> error (fst (toggleTask_begin i c s)) = []
   \<and> error (fst (deleteTask_begin i s)) = []
   \<and> error (fst (loadTasks sess rl s)) = surfaced rl
   \<and> (addTask_begin sess s \<noteq> None \<longrightarrow> error (fst (addTask sess ra s)) = surfaced ra)
   \<and> error (fst (toggleTask i c rt s)) = surfaced rt
   \<and> error (fst (deleteTask i rd s)) = surfaced rd
   \<and> (addTask_begin sess s = None \<longrightarrow> error (fst (addTask sess ra s)) = error s)"
proof -
  have 1: "error (fst (loadTasks_begin sess s)) = []"
    by (simp add: loadTasks_begin_def)
  have 2: "\<forall>s1 q. addTask_begin sess s = Some (s1, q) \<longrightarrow> error s1 = []"
    by (auto simp: addTask_begin_def Let_def split: if_splits)
  have 3: "error (fst (toggleTask_begin i c s)) = []"
    by (simp add: toggleTask_begin_def)
  have 4: "error (fst (deleteTask_begin i s)) = []"
    by (simp add: deleteTask_begin_def Let_def)
  have 5: "error (fst (loadTasks sess rl s)) = surfaced rl"
    by (simp add: loadTasks_def loadTasks_begin_def error_settle_simps)
  have 6: "addTask_begin sess s \<noteq> None \<longrightarrow> error (fst (addTask sess ra s)) = surfaced ra"
    by (auto simp: addTask_def addTask_begin_def Let_def error_settle_simps)
  have 7: "error (fst (toggleTask i c rt s)) = surfaced rt"
    by (simp add: toggleTask_def toggleTask_begin_def error_settle_simps)
  have 8: "error (fst (deleteTask i rd s)) = surfaced rd"
    using error_settle_simps(4) [of "tasks s" rd "s\<lparr>tasks := filter (\<lambda>t. todo_id t \<noteq> i) (tasks s)\<rparr>"]
    by (simp add: deleteTask_def deleteTask_begin_def Let_def)
  have 9: "addTask_begin sess s = None \<longrightarrow> error (fst (addTask sess ra s)) = error s"
    by (simp add: addTask_def)
  show ?thesis
    using 1 2 3 4 5 6 7 8 9 by (intro conjI)
qed

theorem error_reset_when_request_sent_witness:
  "addTask_begin (Session (js ''u1'')) two_tasks \<noteq> None
   \<and> addTask_begin (Session (js ''u1'')) (two_tasks\<lparr>newTask := js ''  ''\<rparr>) = None
   \<and> error two_tasks = js ''stale''
   \<and> error (fst (loadTasks (Session (js ''u1'')) (Fulfilled (Some []) None) two_tasks)) = []
   \<and> error (fst (addTask (Session (js ''u1'')) (Fulfilled None (Some (IsError (js ''denied'')))) two_tasks))
       = js ''denied''
   \<and> error (fst (toggleTask 1 False (Fulfilled (None :: unit option) None) two_tasks)) = []
   \<and> error (fst (deleteTask 2 (Rejected NotError :: unit settled) two_tasks)) = []
   \<and> error (fst (addTask (Session (js ''u1'')) (Fulfilled None None) (two_tasks\<lparr>newTask := js ''  ''\<rparr>)))
       = js ''stale''"
  using error_reset_when_request_sent [of "Session (js ''u1'')" two_tasks 1 False
          "Fulfilled (Some []) None" "Fulfilled None (Some (IsError (js ''denied'')))"
          "Fulfilled (None :: unit option) None" "Rejected NotError :: unit settled"]
        error_reset_when_request_sent [of "Session (js ''u1'')" "two_tasks\<lparr>newTask := js ''  ''\<rparr>" 1 False
          "Fulfilled (Some []) None" "Fulfilled None None"
          "Fulfilled (None :: unit option) None" "Rejected NotError :: unit settled"]
  by (simp add: example_defs surfaced_def awaited_def catch_setError_def trim_def isWhiteSpace_def
        loadTasks_def loadTasks_begin_def loadTasks_settle_def
        addTask_def addTask_begin_def addTask_settle_def
        toggleTask_def toggleTask_begin_def toggleTask_settle_def
        deleteTask_def deleteTask_begin_def deleteTask_settle_def)


section \<open>The completion percentage\<close>

text \<open>The rounding on some values whose binary64 neighbours are known.\<close>

lemma binary64_examples:
  "binary64 (1 / 10) = 3602879701896397 / 2 ^ 55"
  "binary64 (1 / 3) = 6004799503160661 / 2 ^ 54"
  "binary64 55 = 55"
  "binary64 (- (1 / 3)) = - (6004799503160661 / 2 ^ 54)"
  "js_mul (js_div 1 2) 100 = 50"
  by code_simp+

lemma round_half_even_error: "\<bar>of_int (round_half_even y) - y\<bar> \<le> 1 / 2"
proof -
  have "of_int \<lfloor>y\<rfloor> \<le> y" "y < of_int \<lfloor>y\<rfloor> + 1"
    by linarith+
  then show ?thesis
    by (auto simp: round_half_even_def Let_def abs_le_iff)
qed

lemma bitlen_pos: "0 < n \<Longrightarrow> 1 \<le> bitlen n"
  by (auto simp: bitlen_alt_def)

lemma ilog2_bounds:
  assumes "0 < x"
  shows "2 powi (ilog2 x) \<le> x \<and> x < 2 powi (ilog2 x + 1)"
proof (cases "1 \<le> x")
  case True
  define n where "n = \<lfloor>x\<rfloor>"
  have n: "0 < n" "of_int n \<le> x" "x < of_int n + 1"
    using True unfolding n_def by linarith+
  define b where "b = bitlen n"
  have b: "1 \<le> b" using bitlen_pos [OF n(1)] by (simp add: b_def)
  from bitlen_bounds [OF n(1)] have bb: "2 ^ nat (b - 1) \<le> n" "n < 2 ^ nat b"
    by (simp_all add: b_def)
  have e: "ilog2 x = b - 1" using True by (simp add: ilog2_def n_def b_def)
  have "(2::rat) powi (b - 1) = of_int (2 ^ nat (b - 1))"
    using b by (simp add: power_int_def)
  also have "\<dots> \<le> of_int n" using bb(1) by (simp only: of_int_le_iff)
  finally have lo: "2 powi (b - 1) \<le> x" using n(2) by linarith
  have "n + 1 \<le> 2 ^ nat b" using bb(2) by linarith
  then have "(of_int (n + 1) :: rat) \<le> of_int (2 ^ nat b)" by (simp only: of_int_le_iff)
  also have "\<dots> = 2 powi b" using b by (simp add: power_int_def)
  finally have hi: "x < 2 powi b" using n(3) by simp
  show ?thesis using lo hi by (simp add: e)
next
  case False
  define y where "y = 1 / x"
  have y: "1 < y" using False assms by (simp add: y_def)
  define n where "n = \<lceil>y\<rceil> - 1"
  have n: "0 < n" "of_int n < y" "y \<le> of_int n + 1"
    using y unfolding n_def by linarith+
  define b where "b = bitlen n"
  have b: "1 \<le> b" using bitlen_pos [OF n(1)] by (simp add: b_def)
  from bitlen_bounds [OF n(1)] have bb: "2 ^ nat (b - 1) \<le> n" "n < 2 ^ nat b"
    by (simp_all add: b_def)
  have e: "ilog2 x = - b" using False by (simp add: ilog2_def n_def b_def y_def)
  have "n + 1 \<le> 2 ^ nat b" using bb(2) by linarith
  then have "(of_int (n + 1) :: rat) \<le> of_int (2 ^ nat b)" by (simp only: of_int_le_iff)
  then have "y \<le> 2 ^ nat b" using n(3) by simp
  then have "1 / 2 ^ nat b \<le> 1 / y"
    using y by (intro divide_left_mono) auto
  moreover have "(2::rat) powi (- b) = 1 / 2 ^ nat b"
    using b by (simp add: power_int_def field_simps)
  ultimately have lo: "2 powi (- b) \<le> x" by (simp add: y_def)
  have "(of_int (2 ^ nat (b - 1)) :: rat) \<le> of_int n" using bb(1) by (simp only: of_int_le_iff)
  then have "(2::rat) ^ nat (b - 1) \<le> of_int n" by simp
  then have "2 ^ nat (b - 1) < y" using n(2) by linarith
  then have "1 / y < 1 / 2 ^ nat (b - 1)"
    using y by (intro divide_strict_left_mono) auto
  moreover have "(2::rat) powi (- b + 1) = 1 / 2 ^ nat (b - 1)"
    using b by (simp add: power_int_def field_simps nat_diff_distrib)
  ultimately have hi: "x < 2 powi (- b + 1)" by (simp add: y_def)
  show ?thesis using lo hi by (simp add: e)
qed


lemma binary64_rel_error:
  assumes "2 powi (- 1022) \<le> x"
  shows "\<bar>binary64 x - x\<bar> \<le> x / 2 ^ 53"
proof -
  have "(0::rat) < 2 powi (- 1022)" by (rule zero_less_power_int) simp
  with assms have x: "0 < x" by linarith
  define e where "e = ilog2 x"
  from ilog2_bounds [OF x] have lo: "2 powi e \<le> x" and hi: "x < 2 powi (e + 1)"
    by (simp_all add: e_def)
  have e: "- 1022 \<le> e"
  proof (rule ccontr)
    assume "\<not> - 1022 \<le> e"
    then have "e + 1 \<le> - 1022" by simp
    then have "(2::rat) powi (e + 1) \<le> 2 powi (- 1022)"
      by (rule power_int_increasing) simp
    with hi assms show False by linarith
  qed
  define q :: rat where "q = 2 powi (e - 52)"
  have q: "0 < q" unfolding q_def by (rule zero_less_power_int) simp
  define m where "m = round_half_even (x / q)"
  have b: "binary64 x = of_int m * q"
    using x e by (simp add: binary64_def Let_def e_def q_def m_def max_def)
  have "\<bar>of_int m - x / q\<bar> \<le> 1 / 2"
    unfolding m_def by (rule round_half_even_error)
  then have "\<bar>of_int m - x / q\<bar> * q \<le> 1 / 2 * q"
    using q by (intro mult_right_mono) auto
  moreover have "\<bar>of_int m - x / q\<bar> * q = \<bar>of_int m * q - x\<bar>"
  proof -
    have "\<bar>of_int m - x / q\<bar> * q = \<bar>(of_int m - x / q) * q\<bar>"
      using q by (simp add: abs_mult)
    also have "(of_int m - x / q) * q = of_int m * q - x"
      using q by (simp add: field_simps)
    finally show ?thesis .
  qed
  ultimately have 1: "\<bar>of_int m * q - x\<bar> \<le> q / 2" by simp
  have "q = 2 powi e / 2 powi 52"
    unfolding q_def by (rule power_int_diff) simp
  then have "q / 2 = 2 powi e / 2 ^ 53" by simp
  also have "\<dots> \<le> x / 2 ^ 53" using lo by (intro divide_right_mono) auto
  finally show ?thesis using 1 b by linarith
qed

lemma binary64_0: "binary64 0 = 0"
  by (simp add: binary64_def)

lemma small_normal: "(2::rat) powi (- 1022) \<le> 1 / 2 ^ 54"
proof -
  have "(2::rat) powi (- 1022) \<le> 2 powi (- 54)"
    by (rule power_int_increasing) simp_all
  also have "\<dots> = 1 / 2 ^ 54"
    by (simp add: power_int_minus_divide)
  finally show ?thesis .
qed

lemma percentage_error:
  fixes c t :: nat
  assumes "0 < t" and "t < 2 ^ 53" and "c \<le> t"
  shows "\<bar>js_mul (js_div (of_nat c) (of_nat t)) 100 - 100 * of_nat c / of_nat t\<bar>
           \<le> (100 * of_nat c / of_nat t) / 2 ^ 51"
proof (cases "c = 0")
  case True
  then show ?thesis by (simp add: js_mul_def js_div_def binary64_0)
next
  case False
  define x :: rat where "x = of_nat c / of_nat t"
  define y where "y = binary64 x"
  define z where "z = binary64 (y * 100)"
  have "(of_nat t :: rat) < 2 ^ 53"
    using assms(2) by (metis of_nat_less_iff of_nat_numeral of_nat_power)
  moreover have "(1::rat) \<le> of_nat c" using False by simp
  ultimately have xl: "1 / 2 ^ 53 \<le> x"
    using assms(1) unfolding x_def by (intro frac_le) auto
  have x0: "0 < x" using False assms(1) by (simp add: x_def)
  have "2 powi (- 1022) \<le> x" using small_normal xl by simp
  then have yx: "\<bar>y - x\<bar> \<le> x / 2 ^ 53"
    unfolding y_def by (rule binary64_rel_error)
  have h: "x / 2 ^ 53 \<le> x / 2"
    using x0 by (intro divide_left_mono) auto
  have yl: "x / 2 \<le> y" and yu: "y \<le> 2 * x"
    using yx h x0 by linarith+
  have "2 powi (- 1022) \<le> y * 100"
    using small_normal xl yl by simp
  then have zy: "\<bar>z - y * 100\<bar> \<le> y * 100 / 2 ^ 53"
    unfolding z_def by (rule binary64_rel_error)
  define u where "u = x / 2 ^ 53"
  have u4: "100 * x / 2 ^ 51 = 400 * u" by (simp add: u_def)
  have yu': "y * 100 / 2 ^ 53 \<le> 200 * u"
    using yu by (simp add: u_def field_simps)
  have a1: "z - y * 100 \<le> 200 * u" "y * 100 - z \<le> 200 * u"
    using zy yu' by linarith+
  have a2: "y - x \<le> u" "x - y \<le> u"
    using yx unfolding u_def by linarith+
  have "\<bar>z - 100 * x\<bar> \<le> 400 * u"
    using a1 a2 by (simp add: abs_le_iff)
  then have "\<bar>z - 100 * x\<bar> \<le> 100 * x / 2 ^ 51"
    by (simp only: u4)
  then show ?thesis
    by (simp add: z_def y_def x_def js_mul_def js_div_def)
qed

text \<open>
  Claim C7, as stated, fails on the numbers the code computes with: for 11 completed
  tasks of 20 the value \<open>100 * completedCount / totalCount\<close> is exactly 55 (in exact
  arithmetic and in binary64 alike), but the code divides first, 11 / 20 is not a binary64
  value, and the product of the rounded quotient and 100 rounds to the next value above 55.
\<close>
theorem completionPercentage_not_exact:
  "completedCount twenty_tasks = 11 \<and> totalCount twenty_tasks = 20
   \<and> 100 * of_nat (completedCount twenty_tasks) / of_nat (totalCount twenty_tasks) = (55 :: rat)
   \<and> js_div (js_mul 100 (of_nat (completedCount twenty_tasks))) (of_nat (totalCount twenty_tasks)) = 55
   \<and> completionPercentage twenty_tasks = 55 + 1 / 2 ^ 47
   \<and> completionPercentage twenty_tasks
         \<noteq> 100 * of_nat (completedCount twenty_tasks) / of_nat (totalCount twenty_tasks)"
  by code_simp

text \<open>
  Claim C7, amended. \<open>completionPercentage\<close> is 0 when the collection is empty; otherwise
  it is the binary64 product with 100 of the binary64 quotient
  \<open>completedCount / totalCount\<close>, and (for a collection a JavaScript array can hold) it
  differs from the exact \<open>100 * completedCount / totalCount\<close> by at most that value
  divided by \<open>2 ^ 51\<close>.
\<close>
theorem completionPercentage_rounded:
  "(totalCount ts = 0 \<longrightarrow> completionPercentage ts = 0)
   \<and> (0 < totalCount ts \<longrightarrow>
        completionPercentage ts
          = js_mul (js_div (of_nat (completedCount ts)) (of_nat (totalCount ts))) 100)
   \<and> (0 < totalCount ts \<and> totalCount ts < 2 ^ 32 \<longrightarrow>
        \<bar>completionPercentage ts - 100 * of_nat (completedCount ts) / of_nat (totalCount ts)\<bar>
          \<le> (100 * of_nat (completedCount ts) / of_nat (totalCount ts)) / 2 ^ 51)"
proof -
  have le: "completedCount ts \<le> totalCount ts"
    by (simp add: completedCount_def totalCount_def)
  have "(2::nat) ^ 32 \<le> 2 ^ 53" by simp
  then have "totalCount ts < 2 ^ 32 \<longrightarrow> totalCount ts < 2 ^ 53" by linarith
  then have "0 < totalCount ts \<and> totalCount ts < 2 ^ 32 \<longrightarrow>
        \<bar>completionPercentage ts - 100 * of_nat (completedCount ts) / of_nat (totalCount ts)\<bar>
          \<le> (100 * of_nat (completedCount ts) / of_nat (totalCount ts)) / 2 ^ 51"
    using percentage_error [OF _ _ le] by (simp add: completionPercentage_def)
  then show ?thesis
    by (simp add: completionPercentage_def)
qed

theorem completionPercentage_rounded_witness:
  "totalCount ([] :: todo list) = 0 \<and> completionPercentage [] = 0
   \<and> 0 < totalCount [row 1 ''Buy milk'' True, row 2 ''Walk dog'' False]
   \<and> totalCount [row 1 ''Buy milk'' True, row 2 ''Walk dog'' False] < 2 ^ 32
   \<and> completionPercentage [row 1 ''Buy milk'' True, row 2 ''Walk dog'' False] = 50
   \<and> 0 < totalCount twenty_tasks \<and> totalCount twenty_tasks < 2 ^ 32
   \<and> \<bar>completionPercentage twenty_tasks - 55\<bar> \<le> 55 / 2 ^ 51"
proof -
  have e: "totalCount ([] :: todo list) = 0"
    by (simp add: totalCount_def)
  have h: "0 < totalCount twenty_tasks \<and> totalCount twenty_tasks < 2 ^ 32"
    by (simp add: totalCount_def twenty_tasks_def)
  have v: "100 * of_nat (completedCount twenty_tasks) / of_nat (totalCount twenty_tasks) = (55 :: rat)"
    by code_simp
  have "\<bar>completionPercentage twenty_tasks
          - 100 * of_nat (completedCount twenty_tasks) / of_nat (totalCount twenty_tasks)\<bar>
        \<le> (100 * of_nat (completedCount twenty_tasks) / of_nat (totalCount twenty_tasks)) / 2 ^ 51"
    using completionPercentage_rounded [of twenty_tasks] h by blast
  then have b: "\<bar>completionPercentage twenty_tasks - 55\<bar> \<le> 55 / 2 ^ 51"
    by (simp only: v)
  have z: "completionPercentage [] = 0"
    using completionPercentage_rounded [of "[]"] e by blast
  have t: "0 < totalCount [row 1 ''Buy milk'' True, row 2 ''Walk dog'' False]
         \<and> totalCount [row 1 ''Buy milk'' True, row 2 ''Walk dog'' False] < 2 ^ 32"
    by (simp add: totalCount_def)
  have f: "completionPercentage [row 1 ''Buy milk'' True, row 2 ''Walk dog'' False] = 50"
    by code_simp
  show ?thesis
    using e z t f h b by (intro conjI) simp_all
qed

end
